theory Spec2Isabelle
  imports Main
begin

section \<open>Text\<close>

text \<open>
  A JavaScript string is a sequence of UTF-16 code units; the regular expressions and the
  string methods of the sources work on code units. A string is therefore a list of natural
  numbers, and \<open>js\<close> embeds an ASCII literal.
\<close>

type_synonym jstring = "nat list"

definition js :: "string \<Rightarrow> jstring" where
  "js s = map of_char s"

section \<open>Message validator\<close>

record message =
  role :: jstring
  content :: jstring

text \<open>
  The loop of \<open>validateMessageStructure\<close>:
  \<^verbatim>\<open>for (let i = 0; i < n.length - 1; i++) if (n[i].role === n[i + 1].role) return false;\<close>
  It yields \<open>False\<close> where the source returns early and \<open>True\<close> where it falls through.
\<close>

function alternation_loop :: "message list \<Rightarrow> nat \<Rightarrow> bool" where
  "alternation_loop ns i =
     (if i < length ns - 1
      then (if role (ns ! i) = role (ns ! (i + 1)) then False
            else alternation_loop ns (i + 1))
      else True)"
  by pat_completeness auto
termination
  by (relation "measure (\<lambda>(ns, i). length ns - i)") auto

declare alternation_loop.simps [simp del]

definition validateMessageStructure :: "message list \<Rightarrow> bool" where
  "validateMessageStructure messages =
     (if length messages = 0 then True
      else
        let nonSystemMessages = filter (\<lambda>msg. role msg \<noteq> js ''system'') messages in
        if length nonSystemMessages = 0 then True
        else if \<not> alternation_loop nonSystemMessages 0 then False
        else if length nonSystemMessages > 0
                \<and> role (nonSystemMessages ! (length nonSystemMessages - 1)) \<noteq> js ''user''
        then False
        else True)"

section \<open>Rate limiter\<close>

text \<open>
  \<open>RATE_LIMIT.tokens\<close> is a \<open>Map\<close> from the window key to a bucket object. The key is the
  decimal text of \<open>Math.floor(now / windowMs)\<close>; the text of a number determines the number,
  so the map is keyed by the number itself. Times are milliseconds since the epoch.
\<close>

record bucket =
  count :: nat
  resetTime :: nat

type_synonym tokens = "nat \<rightharpoonup> bucket"

definition windowMs :: nat where
  "windowMs = 60 * 1000"

definition maxRequests :: nat where
  "maxRequests = 10"

text \<open>The value \<open>{ allowed, resetTime? }\<close> returned by \<open>checkRateLimit\<close>.\<close>

record limit_check =
  allowed :: bool
  reset :: "nat option"

text \<open>The cleanup pass: every entry whose \<open>resetTime\<close> lies before \<open>now\<close> is deleted.\<close>

definition cleanup :: "nat \<Rightarrow> tokens \<Rightarrow> tokens" where
  "cleanup now tk =
     (\<lambda>key. case tk key of
         None \<Rightarrow> None
       | Some v \<Rightarrow> if resetTime v < now then None else Some v)"

text \<open>
  \<open>tokenBucket.count++\<close> changes the bucket object; the map sees the change when it still
  holds that object under the window key.
\<close>

definition increment :: "nat \<Rightarrow> tokens \<Rightarrow> tokens" where
  "increment key tk =
     (case tk key of
         None \<Rightarrow> tk
       | Some b \<Rightarrow> tk(key \<mapsto> b\<lparr>count := count b + 1\<rparr>))"

definition checkRateLimit :: "nat \<Rightarrow> tokens \<Rightarrow> limit_check \<times> tokens" where
  "checkRateLimit now tk =
     (let windowKey = now div windowMs;
          (tokenBucket, tk1) =
            (case tk windowKey of
                None \<Rightarrow>
                  (let b = \<lparr>count = 0, resetTime = now + windowMs\<rparr>
                   in (b, cleanup now (tk(windowKey \<mapsto> b))))
              | Some b \<Rightarrow> (b, tk))
      in if count tokenBucket \<ge> maxRequests
         then (\<lparr>allowed = False, reset = Some (resetTime tokenBucket)\<rparr>, tk1)
         else (\<lparr>allowed = True, reset = None\<rparr>, increment windowKey tk1))"

text \<open>A run of calls at the given instants, threading the map through.\<close>

fun checks :: "nat list \<Rightarrow> tokens \<Rightarrow> limit_check list \<times> tokens" where
  "checks [] tk = ([], tk)"
| "checks (t # ts) tk =
     (let (r, tk1) = checkRateLimit t tk;
          (rs, tk2) = checks ts tk1
      in (r # rs, tk2))"

section \<open>String methods\<close>

text \<open>
  The code units that \<open>\s\<close> and \<open>trim\<close> treat as white space (tab, line feed, vertical
  tab, form feed, carriage return, space, no-break space, U+1680, U+2000 to U+200A, U+2028,
  U+2029, U+202F, U+205F, U+3000, U+FEFF) and the four line terminators.
\<close>

definition white_space :: jstring where
  "white_space =
     [9, 10, 11, 12, 13, 32, 160, 5760, 8192, 8193, 8194, 8195, 8196, 8197, 8198, 8199, 8200,
      8201, 8202, 8232, 8233, 8239, 8287, 12288, 65279]"

definition line_terminators :: jstring where
  "line_terminators = [10, 13, 8232, 8233]"

definition is_space :: "nat \<Rightarrow> bool" where
  "is_space c = (c \<in> set white_space)"

text \<open>\<open>String.prototype.trim\<close>.\<close>

definition trim :: "jstring \<Rightarrow> jstring" where
  "trim s = rev (dropWhile is_space (rev (dropWhile is_space s)))"

fun starts_with :: "jstring \<Rightarrow> jstring \<Rightarrow> bool" where
  "starts_with s [] = True"
| "starts_with [] (p # ps) = False"
| "starts_with (x # xs) (p # ps) = (x = p \<and> starts_with xs ps)"

text \<open>\<open>String.prototype.includes\<close>: the pattern occurs at some position of the text.\<close>

fun includes_js :: "jstring \<Rightarrow> jstring \<Rightarrow> bool" where
  "includes_js [] p = (p = [])"
| "includes_js (x # xs) p = (starts_with (x # xs) p \<or> includes_js xs p)"

text \<open>\<open>Array.prototype.join\<close>.\<close>

fun join :: "jstring \<Rightarrow> jstring list \<Rightarrow> jstring" where
  "join sep [] = []"
| "join sep [x] = x"
| "join sep (x # y # zs) = x @ sep @ join sep (y # zs)"

section \<open>Regular expressions\<close>

text \<open>
  The regular expressions of the sources use character classes, greedy quantifiers on a
  class, optional groups, capture groups, alternation, the multiline anchors \<open>^\<close> and \<open>$\<close>
  and one negative look-behind of a single character. \<open>Rep c m n\<close> is the class \<open>c\<close>
  repeated at least \<open>m\<close> and at most \<open>n\<close> times (\<open>None\<close>: no upper bound), greedily.
\<close>

datatype cls = Chars jstring | NotChars jstring | Space | Union cls cls

fun in_cls :: "cls \<Rightarrow> nat \<Rightarrow> bool" where
  "in_cls (Chars cs) c = (c \<in> set cs)"
| "in_cls (NotChars cs) c = (c \<notin> set cs)"
| "in_cls Space c = is_space c"
| "in_cls (Union a b) c = (in_cls a c \<or> in_cls b c)"

datatype re =
    Eps
  | One cls
  | Rep cls nat "nat option"
  | Seq re re
  | Alt re re
  | Opt re
  | Cap nat re
  | Bol
  | Eol
  | NotAfter cls

fun seq :: "re list \<Rightarrow> re" where
  "seq [] = Eps"
| "seq [r] = r"
| "seq (r # rs) = Seq r (seq rs)"

definition lit :: "string \<Rightarrow> re" where
  "lit s = seq (map (\<lambda>c. One (Chars [of_char c])) s)"

text \<open>
  The matcher is a backtracking machine, as the one of JavaScript: it works on a stack of
  pending work, tries the alternatives in priority order (a greedy quantifier takes one
  more character first, an optional group is tried before it is skipped, the left branch
  of an alternation before the right one) and returns the first way to empty the stack.
  Its state is the code unit before the current position (for \<open>^\<close> and the look-behind),
  the text from the current position on, and the captures made so far, latest first. A
  capture group remembers the text at its opening and cuts the captured part at its close.
\<close>

datatype frame = Do re | Close nat jstring

type_synonym caps = "(nat \<times> jstring) list"

fun rsize :: "re \<Rightarrow> nat" where
  "rsize (Seq a b) = rsize a + rsize b + 1"
| "rsize (Alt a b) = rsize a + rsize b + 1"
| "rsize (Opt a) = rsize a + 1"
| "rsize (Cap i a) = rsize a + 2"
| "rsize r = 1"

fun fsize :: "frame \<Rightarrow> nat" where
  "fsize (Do r) = rsize r"
| "fsize (Close i opened) = 1"

function (sequential) exec ::
  "frame list \<Rightarrow> nat option \<Rightarrow> jstring \<Rightarrow> caps \<Rightarrow> (nat option \<times> jstring \<times> caps) option" where
  "exec [] prev rest cs = Some (prev, rest, cs)"
| "exec (Close i opened # k) prev rest cs =
     exec k prev rest ((i, take (length opened - length rest) opened) # cs)"
| "exec (Do Eps # k) prev rest cs = exec k prev rest cs"
| "exec (Do (One c) # k) prev rest cs =
     (case rest of
         [] \<Rightarrow> None
       | x # xs \<Rightarrow> if in_cls c x then exec k (Some x) xs cs else None)"
| "exec (Do (Rep c m n) # k) prev rest cs =
     (case (case rest of
               [] \<Rightarrow> None
             | x # xs \<Rightarrow>
                 if n \<noteq> Some 0 \<and> in_cls c x
                 then exec (Do (Rep c (m - 1) (map_option (\<lambda>j. j - 1) n)) # k) (Some x) xs cs
                 else None) of
         Some r \<Rightarrow> Some r
       | None \<Rightarrow> if m = 0 then exec k prev rest cs else None)"
| "exec (Do (Seq a b) # k) prev rest cs = exec (Do a # Do b # k) prev rest cs"
| "exec (Do (Alt a b) # k) prev rest cs =
     (case exec (Do a # k) prev rest cs of
         Some r \<Rightarrow> Some r
       | None \<Rightarrow> exec (Do b # k) prev rest cs)"
| "exec (Do (Opt a) # k) prev rest cs =
     (case exec (Do a # k) prev rest cs of
         Some r \<Rightarrow> Some r
       | None \<Rightarrow> exec k prev rest cs)"
| "exec (Do (Cap i a) # k) prev rest cs = exec (Do a # Close i rest # k) prev rest cs"
| "exec (Do Bol # k) prev rest cs =
     (case prev of
         None \<Rightarrow> exec k prev rest cs
       | Some p \<Rightarrow> if p \<in> set line_terminators then exec k prev rest cs else None)"
| "exec (Do Eol # k) prev rest cs =
     (case rest of
         [] \<Rightarrow> exec k prev rest cs
       | x # xs \<Rightarrow> if x \<in> set line_terminators then exec k prev rest cs else None)"
| "exec (Do (NotAfter c) # k) prev rest cs =
     (case prev of
         None \<Rightarrow> exec k prev rest cs
       | Some p \<Rightarrow> if in_cls c p then None else exec k prev rest cs)"
  by pat_completeness auto
termination
  by (relation "measures [\<lambda>(k, prev, rest, cs). length rest,
                          \<lambda>(k, prev, rest, cs). sum_list (map fsize k)]") auto

text \<open>The text of capture group \<open>i\<close>; a group that took no part in the match gives the empty text.\<close>

definition group :: "caps \<Rightarrow> nat \<Rightarrow> jstring" where
  "group cs i = (case map_of cs i of None \<Rightarrow> [] | Some s \<Rightarrow> s)"

text \<open>
  \<open>String.prototype.replace\<close> with a global pattern: the matches are found from left to
  right, each search starting where the last match ended; an empty match moves on by one
  code unit. The replacement is computed from the matched text and the captures.
\<close>

function replace_re ::
  "re \<Rightarrow> (jstring \<Rightarrow> caps \<Rightarrow> jstring) \<Rightarrow> nat option \<Rightarrow> jstring \<Rightarrow> jstring" where
  "replace_re r f prev rest =
     (case exec [Do r] prev rest [] of
         Some (prev', rest', cs) \<Rightarrow>
           if length rest' < length rest
           then f (take (length rest - length rest') rest) cs @ replace_re r f prev' rest'
           else f [] cs @ (case rest of [] \<Rightarrow> [] | x # xs \<Rightarrow> x # replace_re r f (Some x) xs)
       | None \<Rightarrow> (case rest of [] \<Rightarrow> [] | x # xs \<Rightarrow> x # replace_re r f (Some x) xs))"
  by pat_completeness auto
termination
  by (relation "measure (\<lambda>(r, f, prev, rest). length rest)") auto

definition replace_js :: "re \<Rightarrow> (jstring \<Rightarrow> caps \<Rightarrow> jstring) \<Rightarrow> jstring \<Rightarrow> jstring" where
  "replace_js r f s = replace_re r f None s"

text \<open>
  \<open>String.prototype.split\<close> with a pattern. The two split patterns of the sources match
  at least one code unit, so the rule of \<open>split\<close> for empty matches never applies; an empty
  match is passed over.
\<close>

function split_re :: "re \<Rightarrow> nat option \<Rightarrow> jstring \<Rightarrow> jstring \<Rightarrow> jstring list" where
  "split_re r prev rest piece =
     (case rest of
         [] \<Rightarrow> [piece]
       | x # xs \<Rightarrow>
           (case exec [Do r] prev rest [] of
               Some (prev', rest', cs) \<Rightarrow>
                 if length rest' < length rest
                 then piece # split_re r prev' rest' []
                 else split_re r (Some x) xs (piece @ [x])
             | None \<Rightarrow> split_re r (Some x) xs (piece @ [x])))"
  by pat_completeness auto
termination
  by (relation "measure (\<lambda>(r, prev, rest, piece). length rest)") auto

definition split_js :: "re \<Rightarrow> jstring \<Rightarrow> jstring list" where
  "split_js r s = split_re r None s []"

section \<open>Markdown enhancer\<close>

text \<open>The classes and single characters the patterns of \<open>enhanceMarkdown\<close> are made of.\<close>

definition pipe :: re where
  "pipe = One (Chars (js ''|''))"

definition hash :: re where
  "hash = One (Chars (js ''#''))"

definition newline :: re where
  "newline = One (Chars [10])"

definition spaces :: re where
  "spaces = Rep Space 0 None"

definition not_pipe :: cls where
  "not_pipe = NotChars (js ''|'')"

definition not_newline :: cls where
  "not_newline = NotChars [10]"

text \<open>\<open>[-:\|\s]\<close>\<close>

definition divider_char :: cls where
  "divider_char = Union (Chars (js ''-:|'')) Space"

text \<open>\<open>.\<close> without the \<open>s\<close> flag: any code unit but a line terminator.\<close>

definition dot :: cls where
  "dot = NotChars line_terminators"

text \<open>\<^verbatim>\<open>/\|\s*([^|]+)\s*\|\s*([^|]+)\s*\|\s*([^|]*)\s*\|/g\<close>\<close>

definition tablePattern :: re where
  "tablePattern =
     seq [pipe, spaces, Cap 1 (Rep not_pipe 1 None), spaces,
          pipe, spaces, Cap 2 (Rep not_pipe 1 None), spaces,
          pipe, spaces, Cap 3 (Rep not_pipe 0 None), spaces, pipe]"

text \<open>The callback of the first replacement, on the three captured columns.\<close>

definition tableRow :: "jstring \<Rightarrow> caps \<Rightarrow> jstring" where
  "tableRow m cs =
     (let col1 = group cs 1; col2 = group cs 2; col3 = group cs 3 in
      if includes_js col1 (js ''---'') \<or> includes_js col2 (js ''---'')
         \<or> includes_js col3 (js ''---'')
      then []
      else js ''**'' @ trim col1 @ js ''**: '' @ trim col2
           @ (if trim col3 \<noteq> [] then js '' - _'' @ trim col3 @ js ''_'' else []))"

text \<open>\<^verbatim>\<open>/\|\s*[-:\|\s]+\s*\|\s*[-:\|\s]+\s*\|(\s*[-:\|\s]+\s*\|)?\s*\n/g\<close>\<close>

definition dividerRow :: re where
  "dividerRow =
     seq [pipe, spaces, Rep divider_char 1 None, spaces,
          pipe, spaces, Rep divider_char 1 None, spaces,
          pipe, Opt (Cap 1 (seq [spaces, Rep divider_char 1 None, spaces, pipe])),
          spaces, newline]"

text \<open>
  \<^verbatim>\<open>/(?:##?\s*#?\s*Best Suited For[^\n]*\n+)(\|[^\n]+\|[^\n]*\n\|[-:\|\s]+\|[^\n]*\n)?(.+)/g\<close>
\<close>

definition bestSuitedForRegex :: re where
  "bestSuitedForRegex =
     seq [hash, Rep (Chars (js ''#'')) 0 (Some 1), spaces, Rep (Chars (js ''#'')) 0 (Some 1),
          spaces, lit ''Best Suited For'', Rep not_newline 0 None, Rep (Chars [10]) 1 None,
          Opt (Cap 1 (seq [pipe, Rep not_newline 1 None, pipe, Rep not_newline 0 None, newline,
                           pipe, Rep divider_char 1 None, pipe, Rep not_newline 0 None,
                           newline])),
          Cap 2 (Rep dot 1 None)]"

text \<open>
  The loop that builds the list, \<open>for (let i = 0; i < items.length; i += 3)\<close>: the items
  are taken three at a time; a group yields a line when its first two items are non-empty
  texts (\<open>items[i] && items[i + 1]\<close>), with the third appended when it is one too.
\<close>

fun listContent :: "jstring list \<Rightarrow> jstring" where
  "listContent (a # b # c # items) =
     (if a \<noteq> [] \<and> b \<noteq> []
      then js ''- **'' @ trim a @ js ''**: '' @ trim b
           @ (if c \<noteq> [] then js '' - _'' @ trim c @ js ''_'' else []) @ [10]
      else [])
     @ listContent items"
| "listContent [a, b] =
     (if a \<noteq> [] \<and> b \<noteq> [] then js ''- **'' @ trim a @ js ''**: '' @ trim b @ [10] else [])"
| "listContent [a] = []"
| "listContent [] = []"

text \<open>The callback of the "Best Suited For" replacement, on the captured content.\<close>

definition bestSuitedFor :: "jstring \<Rightarrow> caps \<Rightarrow> jstring" where
  "bestSuitedFor m cs =
     (let content = group cs 2;
          title = js ''### Best Suited For'' @ [10, 10];
          items = filter (\<lambda>item. trim item \<noteq> [])
                    (split_js (Alt (lit ''||'') (lit ''|'')) content)
      in if length items > 0
         then title @ listContent items @ [10]
         else title @ trim (replace_js pipe (\<lambda>m cs. []) content) @ [10])"

definition enhanceMarkdown :: "jstring \<Rightarrow> jstring" where
  "enhanceMarkdown content' =
     (let enhanced = content';
          enhanced = replace_js tablePattern tableRow enhanced;
          enhanced = replace_js dividerRow (\<lambda>m cs. []) enhanced;
          enhanced = replace_js bestSuitedForRegex bestSuitedFor enhanced;
          enhanced = replace_js (Rep (Chars (js ''|'')) 2 None) (\<lambda>m cs. js '' - '') enhanced;
          enhanced = replace_js (Alt (seq [Bol, pipe, spaces]) (seq [spaces, pipe, Eol]))
                       (\<lambda>m cs. []) enhanced;
          enhanced = replace_js (seq [lit ''###'', Cap 1 (Rep not_newline 1 None)])
                       (\<lambda>m cs. js ''### '' @ group cs 1) enhanced;
          enhanced = replace_js (seq [lit ''##'', Cap 1 (Rep not_newline 1 None)])
                       (\<lambda>m cs. js ''## '' @ group cs 1) enhanced;
          enhanced = replace_js
                       (seq [NotAfter (Chars (js ''#'')), hash,
                             Cap 1 (Rep (NotChars (10 # js ''#'')) 1 None)])
                       (\<lambda>m cs. js ''# '' @ group cs 1) enhanced;
          enhanced = replace_js (seq [newline, lit ''-'', Cap 1 (Rep not_newline 1 None)])
                       (\<lambda>m cs. 10 # js ''- '' @ group cs 1) enhanced;
          enhanced = replace_js
                       (seq [Cap 1 (One not_newline),
                             Cap 2 (seq [newline, Rep (Chars (js ''#'')) 1 (Some 3), lit '' ''])])
                       (\<lambda>m cs. group cs 1 @ [10, 10] @ group cs 2) enhanced;
          enhanced = replace_js (seq [Rep (Chars [10]) 2 None, lit ''-''])
                       (\<lambda>m cs. [10, 10] @ js ''-'') enhanced;
          enhanced = replace_js (Rep (Chars [10]) 3 None) (\<lambda>m cs. [10, 10]) enhanced
      in enhanced)"

declare replace_re.simps [simp del]
declare split_re.simps [simp del]

section \<open>Search-query enhancer\<close>

record searchParams =
  searchQuery :: jstring

definition enhanceSearchParams :: "jstring \<Rightarrow> searchParams" where
  "enhanceSearchParams query =
     (let baseSearchTerms = js ''latest Indian credit cards'';
          additionalTerms =
            (if includes_js query (js ''vs'') \<or> includes_js query (js ''compare'')
             then
               (let cards = map trim
                      (split_js (Alt (lit ''vs'') (Alt (lit ''compare'') (lit ''and''))) query)
                in js ''compare '' @ join (js '' vs '') cards
                   @ js '' detailed features benefits india'')
             else if includes_js query (js ''cashback'')
             then js ''highest cashback rewards Indian credit cards latest offers''
             else if includes_js query (js ''travel'') \<or> includes_js query (js ''lounge'')
             then js ''best Indian airport lounge access credit cards international travel benefits''
             else if includes_js query (js ''premium'') \<or> includes_js query (js ''lifestyle'')
             then js ''top Indian premium credit cards exclusive lifestyle benefits luxury privileges''
             else if includes_js query (js ''business'')
             then js ''best Indian business credit cards corporate benefits GST features''
             else if includes_js query (js ''first'') \<or> includes_js query (js ''new'')
             then js ''best first credit cards India beginners no credit history''
             else if includes_js query (js ''reward'')
             then js ''highest reward rate Indian credit cards points multipliers''
             else js '''')
      in \<lparr>searchQuery =
           baseSearchTerms @ js '' '' @ additionalTerms
           @ js '' (site:cardinsider.com OR site:bankbazaar.com OR site:cardexpert.in)''\<rparr>)"

text \<open>
  The rules of the enhancer as the specification words them: an ordered list of pairs of a
  predicate on the query and the phrase it selects, of which the first whose predicate
  holds wins, and no additional phrase when none holds.
\<close>

definition spec_compare_phrase :: "jstring \<Rightarrow> jstring" where
  "spec_compare_phrase query =
     js ''compare ''
     @ join (js '' vs '')
         (map trim (split_js (Alt (lit ''vs'') (Alt (lit ''compare'') (lit ''and''))) query))
     @ js '' detailed features benefits india''"

definition spec_rules :: "((jstring \<Rightarrow> bool) \<times> (jstring \<Rightarrow> jstring)) list" where
  "spec_rules =
     [(\<lambda>q. includes_js q (js ''vs'') \<or> includes_js q (js ''compare''), spec_compare_phrase),
      (\<lambda>q. includes_js q (js ''cashback''),
       \<lambda>q. js ''highest cashback rewards Indian credit cards latest offers''),
      (\<lambda>q. includes_js q (js ''travel'') \<or> includes_js q (js ''lounge''),
       \<lambda>q. js ''best Indian airport lounge access credit cards international travel benefits''),
      (\<lambda>q. includes_js q (js ''premium'') \<or> includes_js q (js ''lifestyle''),
       \<lambda>q. js ''top Indian premium credit cards exclusive lifestyle benefits luxury privileges''),
      (\<lambda>q. includes_js q (js ''business''),
       \<lambda>q. js ''best Indian business credit cards corporate benefits GST features''),
      (\<lambda>q. includes_js q (js ''first'') \<or> includes_js q (js ''new''),
       \<lambda>q. js ''best first credit cards India beginners no credit history''),
      (\<lambda>q. includes_js q (js ''reward''),
       \<lambda>q. js ''highest reward rate Indian credit cards points multipliers'')]"

fun spec_first_match ::
  "((jstring \<Rightarrow> bool) \<times> (jstring \<Rightarrow> jstring)) list \<Rightarrow> jstring \<Rightarrow> jstring" where
  "spec_first_match [] q = []"
| "spec_first_match ((applies, phrase) # rules) q =
     (if applies q then phrase q else spec_first_match rules q)"

definition spec_site_restriction :: jstring where
  "spec_site_restriction = js ''(site:cardinsider.com OR site:bankbazaar.com OR site:cardexpert.in)''"

section \<open>Response generator\<close>

definition CREDIT_CARD_EXPERT_PROMPT :: jstring where
  "CREDIT_CARD_EXPERT_PROMPT = join [10]
     [js ''You are a concise credit card expert focusing on the Indian market. ALWAYS use tables for comparisons, never use bullet points or paragraphs for comparing features.'',
      js '''',
      js ''RESPONSE FORMAT RULES:'',
      js ''1. ALL comparisons MUST be in table format'',
      js ''2. NEVER use bullet points or paragraphs for comparisons'',
      js ''3. Use tables with the following structure:'',
      js '''',
      js ''### Basic Features'',
      js ''| Feature | Card 1 | Card 2 |'',
      js ''|---------|--------|--------|'',
      js ''| Annual Fee | '' @ [8377] @ js ''XXX | '' @ [8377] @ js ''YYY |'',
      js ''| Welcome Benefits | Detail | Detail |'',
      js ''| Income Required | '' @ [8377] @ js ''XXX | '' @ [8377] @ js ''YYY |'',
      js '''',
      js ''### Reward Rates'',
      js ''| Category | Card 1 | Card 2 |'',
      js ''|----------|--------|--------|'',
      js ''| General Spend | X% | Y% |'',
      js ''| Dining | X% | Y% |'',
      js ''| Travel | X% | Y% |'',
      js ''| Shopping | X% | Y% |'',
      js '''',
      js ''### Additional Benefits'',
      js ''| Benefit | Card 1 | Card 2 |'',
      js ''|---------|--------|--------|'',
      js ''| Lounge Access | Detail | Detail |'',
      js ''| Insurance | Detail | Detail |'',
      js ''| Offers | Detail | Detail |'',
      js '''',
      js ''### Best Suited For'',
      js ''| Use Case | Best Card | Reason |'',
      js ''|----------|-----------|---------|'',
      js ''| Overall | Name | Why |'',
      js ''| Rewards | Name | Why |'',
      js ''| Travel | Name | Why |'',
      js ''| Shopping | Name | Why |'',
      js '''',
      js ''IMPORTANT:'',
      js ''- Use '' @ [8377] @ js '' symbol for all amounts'',
      js ''- Include actual numbers/percentages'',
      js ''- Present ALL comparisons in tables'',
      js ''- No bullet points or paragraphs for comparing features'',
      js ''- Add table headers for each comparison section'',
      js ''- Ensure proper markdown table formatting'',
      js '''',
      js ''Remember to:'',
      js ''- Keep Indian context central'',
      js ''- Use local examples'',
      js ''- Reference local regulations'',
      js ''- Consider Indian spending patterns'']"

definition OFFICIAL_BANK_DOMAINS :: "jstring list" where
  "OFFICIAL_BANK_DOMAINS =
     [js ''cardinsider.com'', js ''bankbazaar.com'', js ''hdfcbank.com'', js ''sbicard.com'',
      js ''icicibank.com'', js ''axisbank.com'', js ''idfcfirstbank.com'', js ''indusind.com'',
      js ''hsbc.co.in'', js ''sc.com'', js ''kotak.com'', js ''yesbank.in'', js ''rblbank.com'',
      js ''creditcardinsider.in'', js ''cardexpert.in'']"

definition MAX_RETRIES :: nat where
  "MAX_RETRIES = 3"

definition RETRY_DELAY :: nat where
  "RETRY_DELAY = 1000"

text \<open>
  The body of the request: the model, the messages, the domain allow-list and the search
  query. The remaining fields (temperature, top_p, max_tokens, recency filter, top_k,
  stream, location, language, region filter) are literals of the source and are left out.
\<close>

record request =
  req_model :: jstring
  req_messages :: "message list"
  req_search_domain_filter :: "jstring list"
  req_search_query :: jstring

text \<open>
  What \<open>fetch\<close> and \<open>response.text()\<close> give: a rejection with the message of its error, or a
  status and a body.
\<close>

datatype reply = Rejected jstring | Http nat jstring

text \<open>The value \<open>generateResponse\<close> resolves to.\<close>

record answer =
  answer_content :: jstring
  answer_citations :: "jstring list"

text \<open>
  The platform the function runs on. \<open>fetch\<close> answers the \<open>n\<close>-th request sent (counting
  from 0) and tells how many milliseconds passed meanwhile. \<open>parseResponse\<close> stands for
  \<open>JSON.parse\<close> followed by the reads of \<open>choices[0].message.content\<close> and \<open>citations\<close>: it
  gives the message of the exception thrown, or the content and the citations when present.
  \<open>toLocaleTimeString\<close> and \<open>toLowerCase\<close> are the methods of \<open>Date\<close> and \<open>String\<close>, which
  depend on the locale and on the Unicode tables.
\<close>

record env =
  fetch :: "nat \<Rightarrow> request \<Rightarrow> reply \<times> nat"
  parseResponse :: "jstring \<Rightarrow> jstring + (jstring \<times> jstring list option)"
  toLocaleTimeString :: "nat \<Rightarrow> jstring"
  toLowerCase :: "jstring \<Rightarrow> jstring"

text \<open>
  What the function does to the outside, in the order it happens: a request sent to the
  provider, or a delay waited.
\<close>

datatype event = Sent request | Slept nat

text \<open>
  The state outside the function: the clock, the rate limiter's map, the requests sent to
  the provider so far, the delays waited so far, and the log of both in the order they
  happened. Nothing but the function under study changes this state while it runs: the
  model is of one call in isolation.
\<close>

record world =
  now :: nat
  tokens :: tokens
  calls :: "request list"
  sleeps :: "nat list"
  events :: "event list"

text \<open>The decimal text of a number, as a template literal prints \<open>response.status\<close>.\<close>

function digits :: "nat \<Rightarrow> jstring" where
  "digits n = (if n < 10 then [48 + n] else digits (n div 10) @ [48 + n mod 10])"
  by pat_completeness auto
termination
  by (relation "measure id") auto

declare digits.simps [simp del]

text \<open>
  The part of the \<open>try\<close> block between the rate-limit check and the call of \<open>fetch\<close>: the
  user turns are rewritten, the search query is computed, the system prompt is put first
  unless the first message is a system message already, and the body is assembled.
\<close>

definition requestBody :: "env \<Rightarrow> message list \<Rightarrow> request" where
  "requestBody e messages =
     (let modifiedMessages =
            map (\<lambda>msg. if role msg = js ''user''
                       then msg\<lparr>content := js ''For Indian credit cards only: '' @ content msg\<rparr>
                       else msg) messages;
          userQuery =
            (case find (\<lambda>m. role m = js ''user'') modifiedMessages of
                None \<Rightarrow> js ''''
              | Some m \<Rightarrow>
                  (let lowered = toLowerCase e (content m)
                   in if lowered = [] then js '''' else lowered));
          searchParams = enhanceSearchParams userQuery;
          messagesWithSystemPrompt =
            (case modifiedMessages of
                [] \<Rightarrow> \<lparr>role = js ''system'', content = CREDIT_CARD_EXPERT_PROMPT\<rparr>
                       # modifiedMessages
              | first # others \<Rightarrow>
                  if role first = js ''system'' then modifiedMessages
                  else \<lparr>role = js ''system'', content = CREDIT_CARD_EXPERT_PROMPT\<rparr>
                       # modifiedMessages)
      in \<lparr>req_model = js ''llama-3.1-sonar-small-128k-online'',
          req_messages = messagesWithSystemPrompt,
          req_search_domain_filter = OFFICIAL_BANK_DOMAINS,
          req_search_query = searchQuery searchParams\<rparr>)"

text \<open>The message of the error thrown when the validation fails.\<close>

definition invalidStructure :: jstring where
  "invalidStructure = js ''Invalid message structure: After system messages, user and assistant roles must alternate''"

text \<open>
  The \<open>try\<close> block of \<open>generateResponse\<close>: \<open>Inl\<close> carries the message of the error thrown,
  \<open>Inr\<close> the value returned.
\<close>

definition attempt :: "env \<Rightarrow> message list \<Rightarrow> world \<Rightarrow> (jstring + answer) \<times> world" where
  "attempt e messages w =
     (if \<not> validateMessageStructure messages
      then (Inl invalidStructure, w)
      else
        let (rateLimitCheck, tk) = checkRateLimit (now w) (tokens w);
            w1 = w\<lparr>tokens := tk\<rparr>
        in if \<not> allowed rateLimitCheck
           then (Inl (js ''Rate limit exceeded. Please try again after ''
                      @ (case reset rateLimitCheck of
                            None \<Rightarrow> js ''undefined''
                          | Some t \<Rightarrow> toLocaleTimeString e t)), w1)
           else
             let req = requestBody e messages;
                 (response, elapsed) = fetch e (length (calls w1)) req;
                 w2 = w1\<lparr>calls := calls w1 @ [req], events := events w1 @ [Sent req],
                         now := now w1 + elapsed\<rparr>
             in case response of
                   Rejected message \<Rightarrow> (Inl message, w2)
                 | Http status responseText \<Rightarrow>
                     if \<not> (200 \<le> status \<and> status \<le> 299)
                     then (Inl (js ''Perplexity API error ('' @ digits status @ js ''): ''
                                @ responseText), w2)
                     else
                       (case parseResponse e responseText of
                           Inl message \<Rightarrow> (Inl message, w2)
                         | Inr (text, cites) \<Rightarrow>
                             (Inr \<lparr>answer_content = text,
                                   answer_citations =
                                     (case cites of None \<Rightarrow> [] | Some c \<Rightarrow> c)\<rparr>, w2)))"

text \<open>The translation of the last error into the message shown to the user.\<close>

definition errorMessage :: "jstring \<Rightarrow> jstring" where
  "errorMessage message =
     (if includes_js message (js ''429'')
      then js ''Service is temporarily busy. Please try again in a few moments.''
      else if includes_js message (js ''401'')
      then js ''Authentication error. Please check your API key.''
      else if includes_js message (js ''5'')
      then js ''Service is experiencing issues. Please try again later.''
      else js ''An unexpected error occurred. Please try again.'')"

text \<open>\<open>await new Promise((resolve) => setTimeout(resolve, ms))\<close>\<close>

definition sleep :: "nat \<Rightarrow> world \<Rightarrow> world" where
  "sleep ms w = w\<lparr>sleeps := sleeps w @ [ms], events := events w @ [Slept ms], now := now w + ms\<rparr>"

function generateResponse ::
  "env \<Rightarrow> message list \<Rightarrow> nat \<Rightarrow> world \<Rightarrow> (jstring + answer) \<times> world" where
  "generateResponse e messages retryCount w =
     (case attempt e messages w of
         (Inr result, w1) \<Rightarrow> (Inr result, w1)
       | (Inl message, w1) \<Rightarrow>
           if includes_js message (js ''Rate limit exceeded'') then (Inl message, w1)
           else if retryCount < MAX_RETRIES
           then generateResponse e messages (retryCount + 1)
                  (sleep (RETRY_DELAY * (retryCount + 1)) w1)
           else (Inl (errorMessage message), w1))"
  by pat_completeness auto
termination
  by (relation "measure (\<lambda>(e, messages, retryCount, w). MAX_RETRIES - retryCount)") auto

declare generateResponse.simps [simp del]

text \<open>
  A platform for running the function on concrete inputs: a provider that answers every
  request with the given status and body at once, a parser that returns the body as the
  content with no citations, the instant printed in decimal as the time text, and
  lower-casing of the ASCII letters.
\<close>

definition ascii_lower :: "jstring \<Rightarrow> jstring" where
  "ascii_lower s = map (\<lambda>c. if 65 \<le> c \<and> c \<le> 90 then c + 32 else c) s"

definition mock :: "nat \<Rightarrow> jstring \<Rightarrow> env" where
  "mock status body =
     \<lparr>fetch = (\<lambda>n req. (Http status body, 0)),
      parseResponse = (\<lambda>t. Inr (t, None)),
      toLocaleTimeString = digits,
      toLowerCase = ascii_lower\<rparr>"

definition fresh :: world where
  "fresh = \<lparr>now = 0, tokens = Map.empty, calls = [], sleeps = [], events = []\<rparr>"

section \<open>Evaluation of the text functions\<close>

lemmas text_defs = js_def is_space_def white_space_def line_terminators_def trim_def group_def lit_def

lemmas pattern_defs = hash_def pipe_def newline_def spaces_def not_pipe_def not_newline_def
  divider_char_def dot_def tablePattern_def dividerRow_def bestSuitedForRegex_def

lemmas run_defs = replace_js_def split_js_def replace_re.simps split_re.simps
  tableRow_def bestSuitedFor_def

section \<open>Properties of the message validator\<close>

lemma alternation_loop_iff:
  "alternation_loop ns i \<longleftrightarrow> \<not> (\<exists>j. i \<le> j \<and> Suc j < length ns \<and> role (ns ! j) = role (ns ! Suc j))"
proof (induction ns i rule: alternation_loop.induct)
  case (1 ns i)
  show ?case
  proof (cases "i < length ns - 1")
    case False
    then show ?thesis by (subst alternation_loop.simps) auto
  next
    case True
    show ?thesis
    proof (cases "role (ns ! i) = role (ns ! (i + 1))")
      case same: True
      have "i \<le> i \<and> Suc i < length ns \<and> role (ns ! i) = role (ns ! Suc i)"
        using True same by auto
      then have "\<exists>j. i \<le> j \<and> Suc j < length ns \<and> role (ns ! j) = role (ns ! Suc j)"
        by blast
      moreover have "\<not> alternation_loop ns i"
        using True same by (subst alternation_loop.simps) simp
      ultimately show ?thesis by blast
    next
      case diff: False
      have "alternation_loop ns i = alternation_loop ns (i + 1)"
        using True diff by (subst alternation_loop.simps) simp
      also have "\<dots> \<longleftrightarrow> \<not> (\<exists>j. i + 1 \<le> j \<and> Suc j < length ns \<and> role (ns ! j) = role (ns ! Suc j))"
        using 1 True diff by simp
      also have "\<dots> \<longleftrightarrow> \<not> (\<exists>j. i \<le> j \<and> Suc j < length ns \<and> role (ns ! j) = role (ns ! Suc j))"
      proof -
        have "\<And>j. i \<le> j \<Longrightarrow> role (ns ! j) = role (ns ! Suc j) \<Longrightarrow> i + 1 \<le> j"
          using diff by (metis Suc_eq_plus1 Suc_leI le_neq_implies_less)
        then show ?thesis by auto
      qed
      finally show ?thesis .
    qed
  qed
qed

text \<open>
  Claim C2. \<open>validateMessageStructure\<close> accepts the empty conversation and every
  conversation made of system turns only. When some turn remains after the system turns are
  filtered out, it rejects exactly when two adjacent remaining turns have the same role or
  the last remaining turn is not a \<open>user\<close> turn, and accepts otherwise.
\<close>

theorem validateMessageStructure_characterised:
  "validateMessageStructure []
   \<and> ((\<forall>m \<in> set messages. role m = js ''system'') \<longrightarrow> validateMessageStructure messages)
   \<and> (let remaining = filter (\<lambda>msg. role msg \<noteq> js ''system'') messages in
        remaining \<noteq> [] \<longrightarrow>
          (\<not> validateMessageStructure messages \<longleftrightarrow>
             (\<exists>i. Suc i < length remaining \<and> role (remaining ! i) = role (remaining ! Suc i))
             \<or> role (last remaining) \<noteq> js ''user''))"
proof (intro conjI)
  show "validateMessageStructure []" by (simp add: validateMessageStructure_def)
next
  show "(\<forall>m \<in> set messages. role m = js ''system'') \<longrightarrow> validateMessageStructure messages"
  proof
    assume "\<forall>m \<in> set messages. role m = js ''system''"
    then have "filter (\<lambda>msg. role msg \<noteq> js ''system'') messages = []" by (simp add: filter_empty_conv)
    then show "validateMessageStructure messages" by (simp add: validateMessageStructure_def Let_def)
  qed
next
  show "let remaining = filter (\<lambda>msg. role msg \<noteq> js ''system'') messages in
        remaining \<noteq> [] \<longrightarrow>
          (\<not> validateMessageStructure messages \<longleftrightarrow>
             (\<exists>i. Suc i < length remaining \<and> role (remaining ! i) = role (remaining ! Suc i))
             \<or> role (last remaining) \<noteq> js ''user'')"
    unfolding Let_def
  proof
    let ?r = "filter (\<lambda>msg. role msg \<noteq> js ''system'') messages"
    assume ne: "?r \<noteq> []"
    then have m: "messages \<noteq> []" by auto
    have l: "?r ! (length ?r - 1) = last ?r" using ne by (simp add: last_conv_nth)
    show "\<not> validateMessageStructure messages \<longleftrightarrow>
             (\<exists>i. Suc i < length ?r \<and> role (?r ! i) = role (?r ! Suc i))
             \<or> role (last ?r) \<noteq> js ''user''"
      using ne m l by (simp add: validateMessageStructure_def Let_def alternation_loop_iff) 
  qed
qed

theorem validateMessageStructure_characterised_witness:
  "validateMessageStructure [\<lparr>role = js ''system'', content = js ''s''\<rparr>]
   \<and> \<not> validateMessageStructure
        [\<lparr>role = js ''user'', content = js ''a''\<rparr>, \<lparr>role = js ''assistant'', content = js ''b''\<rparr>]
   \<and> validateMessageStructure
        [\<lparr>role = js ''user'', content = js ''a''\<rparr>, \<lparr>role = js ''assistant'', content = js ''b''\<rparr>,
         \<lparr>role = js ''system'', content = js ''s''\<rparr>, \<lparr>role = js ''user'', content = js ''c''\<rparr>]"
proof (intro conjI)
  show "validateMessageStructure [\<lparr>role = js ''system'', content = js ''s''\<rparr>]"
    using validateMessageStructure_characterised [of "[\<lparr>role = js ''system'', content = js ''s''\<rparr>]"]
    by simp
next
  show "\<not> validateMessageStructure
        [\<lparr>role = js ''user'', content = js ''a''\<rparr>, \<lparr>role = js ''assistant'', content = js ''b''\<rparr>]"
    using validateMessageStructure_characterised
      [of "[\<lparr>role = js ''user'', content = js ''a''\<rparr>, \<lparr>role = js ''assistant'', content = js ''b''\<rparr>]"]
    by (simp add: js_def)
next
  have nth: "\<And>i (x::message) y z. Suc i < 3 \<Longrightarrow> i = 0 \<or> i = 1" by auto
  show "validateMessageStructure
        [\<lparr>role = js ''user'', content = js ''a''\<rparr>, \<lparr>role = js ''assistant'', content = js ''b''\<rparr>,
         \<lparr>role = js ''system'', content = js ''s''\<rparr>, \<lparr>role = js ''user'', content = js ''c''\<rparr>]"
    using validateMessageStructure_characterised
      [of "[\<lparr>role = js ''user'', content = js ''a''\<rparr>, \<lparr>role = js ''assistant'', content = js ''b''\<rparr>,
         \<lparr>role = js ''system'', content = js ''s''\<rparr>, \<lparr>role = js ''user'', content = js ''c''\<rparr>]"]
    by (auto simp add: js_def less_Suc_eq nth_Cons')
qed

section \<open>Properties of the rate limiter\<close>

lemma same_window:
  fixes a b w k :: nat
  assumes "0 < w" and "a div w = k" and "b div w = k"
  shows "b \<le> a + w" and "(k + 1) * w \<le> a + w" and "a + w < (k + 2) * w"
proof -
  have lo: "k * w \<le> a" using assms(2) div_times_less_eq_dividend [of a w] by simp
  have hb: "b < w + k * w" using assms(1,3) dividend_less_div_times [of w b] by simp
  have ha: "a < w + k * w" using assms(1,2) dividend_less_div_times [of w a] by simp
  show "b \<le> a + w" using lo hb by simp
  show "(k + 1) * w \<le> a + w" using lo by (simp add: algebra_simps)
  show "a + w < (k + 2) * w" using ha by (simp add: algebra_simps)
qed

lemma checkRateLimit_existing:
  assumes "tk (t div windowMs) = Some b"
  shows "checkRateLimit t tk =
    (if maxRequests \<le> count b
     then (\<lparr>allowed = False, reset = Some (resetTime b)\<rparr>, tk)
     else (\<lparr>allowed = True, reset = None\<rparr>, tk(t div windowMs \<mapsto> b\<lparr>count := count b + 1\<rparr>)))"
  using assms by (simp add: checkRateLimit_def Let_def increment_def)

lemma checkRateLimit_fresh:
  assumes "tk (t div windowMs) = None"
  shows "fst (checkRateLimit t tk) = \<lparr>allowed = True, reset = None\<rparr>"
    and "snd (checkRateLimit t tk) (t div windowMs) = Some \<lparr>count = 1, resetTime = t + windowMs\<rparr>"
  using assms
  by (simp_all add: checkRateLimit_def Let_def increment_def cleanup_def maxRequests_def)

lemma checks_Cons:
  "checks (t # ts) tk =
     (fst (checkRateLimit t tk) # fst (checks ts (snd (checkRateLimit t tk))),
      snd (checks ts (snd (checkRateLimit t tk))))"
  by (simp add: split_def Let_def)

lemma checks_existing:
  assumes "tk k = Some b" and "\<forall>t \<in> set ts. t div windowMs = k" and "count b \<le> maxRequests"
  shows "(\<forall>i < length ts. fst (checks ts tk) ! i =
            (if count b + i < maxRequests then \<lparr>allowed = True, reset = None\<rparr>
             else \<lparr>allowed = False, reset = Some (resetTime b)\<rparr>))
         \<and> snd (checks ts tk) k = Some (b\<lparr>count := min (count b + length ts) maxRequests\<rparr>)"
  using assms
proof (induction ts arbitrary: tk b)
  case Nil
  then show ?case by simp
next
  case (Cons t ts)
  have k: "t div windowMs = k" and rest: "\<forall>t \<in> set ts. t div windowMs = k"
    using Cons.prems(2) by auto
  have tk: "tk (t div windowMs) = Some b"
    using Cons.prems(1) k by simp
  show ?case
  proof (cases "maxRequests \<le> count b")
    case True
    then have full: "count b = maxRequests" using Cons.prems(3) by simp
    have step: "checkRateLimit t tk = (\<lparr>allowed = False, reset = Some (resetTime b)\<rparr>, tk)"
      using checkRateLimit_existing [of tk t b] tk True by simp
    have ih: "(\<forall>i < length ts. fst (checks ts tk) ! i =
            (if count b + i < maxRequests then \<lparr>allowed = True, reset = None\<rparr>
             else \<lparr>allowed = False, reset = Some (resetTime b)\<rparr>))
         \<and> snd (checks ts tk) k = Some (b\<lparr>count := min (count b + length ts) maxRequests\<rparr>)"
      using Cons.IH [of tk b] Cons.prems(1,3) rest by blast
    have "\<And>i. i < length (t # ts) \<Longrightarrow> fst (checks (t # ts) tk) ! i =
            (if count b + i < maxRequests then \<lparr>allowed = True, reset = None\<rparr>
             else \<lparr>allowed = False, reset = Some (resetTime b)\<rparr>)"
    proof -
      fix i assume "i < length (t # ts)"
      then show "fst (checks (t # ts) tk) ! i =
            (if count b + i < maxRequests then \<lparr>allowed = True, reset = None\<rparr>
             else \<lparr>allowed = False, reset = Some (resetTime b)\<rparr>)"
        using step ih full by (cases i) (simp_all add: checks_Cons del: checks.simps)
    qed
    moreover have "snd (checks (t # ts) tk) k
        = Some (b\<lparr>count := min (count b + length (t # ts)) maxRequests\<rparr>)"
      using step ih full by (simp add: checks_Cons del: checks.simps)
    ultimately show ?thesis by blast
  next
    case False
    define b' where "b' = b\<lparr>count := count b + 1\<rparr>"
    define tk' where "tk' = tk(t div windowMs \<mapsto> b')"
    have step: "checkRateLimit t tk = (\<lparr>allowed = True, reset = None\<rparr>, tk')"
      using checkRateLimit_existing [of tk t b] tk False by (simp add: tk'_def b'_def)
    have tk'k: "tk' k = Some b'" using k by (simp add: tk'_def)
    have cb': "count b' \<le> maxRequests" using False by (simp add: b'_def)
    have ih: "(\<forall>i < length ts. fst (checks ts tk') ! i =
            (if count b' + i < maxRequests then \<lparr>allowed = True, reset = None\<rparr>
             else \<lparr>allowed = False, reset = Some (resetTime b')\<rparr>))
         \<and> snd (checks ts tk') k = Some (b'\<lparr>count := min (count b' + length ts) maxRequests\<rparr>)"
      using Cons.IH [of tk' b'] tk'k cb' rest by blast
    have cnt: "count b' = count b + 1" and rt: "resetTime b' = resetTime b"
      by (simp_all add: b'_def)
    have "\<And>i. i < length (t # ts) \<Longrightarrow> fst (checks (t # ts) tk) ! i =
            (if count b + i < maxRequests then \<lparr>allowed = True, reset = None\<rparr>
             else \<lparr>allowed = False, reset = Some (resetTime b)\<rparr>)"
    proof -
      fix i assume "i < length (t # ts)"
      then show "fst (checks (t # ts) tk) ! i =
            (if count b + i < maxRequests then \<lparr>allowed = True, reset = None\<rparr>
             else \<lparr>allowed = False, reset = Some (resetTime b)\<rparr>)"
        using step ih False cnt rt by (cases i) (simp_all add: checks_Cons del: checks.simps)
    qed
    moreover have "snd (checks (t # ts) tk) k
        = Some (b\<lparr>count := min (count b + length (t # ts)) maxRequests\<rparr>)"
      using step ih cnt by (simp add: checks_Cons b'_def del: checks.simps)
    ultimately show ?thesis by blast
  qed
qed

lemma checks_fresh:
  assumes "tk k = None" and "\<forall>t \<in> set ts. t div windowMs = k"
  shows "(\<forall>i < length ts. fst (checks ts tk) ! i =
            (if i < maxRequests then \<lparr>allowed = True, reset = None\<rparr>
             else \<lparr>allowed = False, reset = Some (hd ts + windowMs)\<rparr>))
         \<and> (ts \<noteq> [] \<longrightarrow> snd (checks ts tk) k
               = Some \<lparr>count = min (length ts) maxRequests, resetTime = hd ts + windowMs\<rparr>)"
proof (cases ts)
  case Nil
  then show ?thesis by simp
next
  case (Cons t ts')
  let ?b = "\<lparr>count = 1, resetTime = t + windowMs\<rparr>"
  let ?tk = "snd (checkRateLimit t tk)"
  have k: "t div windowMs = k" using assms Cons by simp
  have f: "fst (checkRateLimit t tk) = \<lparr>allowed = True, reset = None\<rparr>"
    and s: "?tk k = Some ?b"
    using checkRateLimit_fresh [of tk t] assms(1) k by simp_all
  have rest: "(\<forall>i < length ts'. fst (checks ts' ?tk) ! i =
            (if count ?b + i < maxRequests then \<lparr>allowed = True, reset = None\<rparr>
             else \<lparr>allowed = False, reset = Some (resetTime ?b)\<rparr>))
         \<and> snd (checks ts' ?tk) k = Some (?b\<lparr>count := min (count ?b + length ts') maxRequests\<rparr>)"
    using checks_existing [of ?tk k ?b ts'] s assms(2) Cons by (simp add: maxRequests_def)
  show ?thesis
    using f rest Cons by (auto simp: split_def Let_def nth_Cons' maxRequests_def)
qed

text \<open>
  Claim C4. Take any run of calls whose instants all fall into one 60-second bucket that is
  not yet tracked. The first ten calls are allowed, and after the \<open>n\<close>-th of them the bucket's
  counter is \<open>n\<close>. Every call from the eleventh on is rejected, and the reset instant it
  reports is not before the instant of the call.
\<close>

theorem checkRateLimit_window:
  assumes "tk k = None" and "\<forall>t \<in> set ts. t div 60000 = k"
  shows "\<forall>i < length ts.
           (i < 10 \<longrightarrow>
              allowed (fst (checks ts tk) ! i)
              \<and> (\<exists>b. snd (checks (take (Suc i) ts) tk) k = Some b \<and> count b = Suc i))
           \<and> (10 \<le> i \<longrightarrow>
              \<not> allowed (fst (checks ts tk) ! i)
              \<and> (\<exists>r. reset (fst (checks ts tk) ! i) = Some r \<and> ts ! i \<le> r))"
proof (intro allI impI)
  fix i assume i: "i < length ts"
  have all: "\<forall>t \<in> set ts. t div windowMs = k" using assms(2) by (simp add: windowMs_def)
  have res: "fst (checks ts tk) ! i =
            (if i < maxRequests then \<lparr>allowed = True, reset = None\<rparr>
             else \<lparr>allowed = False, reset = Some (hd ts + windowMs)\<rparr>)"
    using checks_fresh [of tk k ts] assms(1) all i by simp
  have pre: "\<forall>t \<in> set (take (Suc i) ts). t div windowMs = k"
    using all by (meson in_set_takeD)
  have ne: "take (Suc i) ts \<noteq> []" using i by auto
  have cnt: "snd (checks (take (Suc i) ts) tk) k
      = Some \<lparr>count = min (Suc i) maxRequests, resetTime = hd (take (Suc i) ts) + windowMs\<rparr>"
    using checks_fresh [of tk k "take (Suc i) ts"] assms(1) pre ne i by (simp add: min_def)
  have "hd ts div windowMs = k" "ts ! i div windowMs = k"
    using all i by (cases ts, auto)
  then have late: "ts ! i \<le> hd ts + windowMs"
    using same_window(1) [of windowMs "hd ts" k "ts ! i"] by (simp add: windowMs_def)
  show "(i < 10 \<longrightarrow>
              allowed (fst (checks ts tk) ! i)
              \<and> (\<exists>b. snd (checks (take (Suc i) ts) tk) k = Some b \<and> count b = Suc i))
           \<and> (10 \<le> i \<longrightarrow>
              \<not> allowed (fst (checks ts tk) ! i)
              \<and> (\<exists>r. reset (fst (checks ts tk) ! i) = Some r \<and> ts ! i \<le> r))"
    using res cnt late by (auto simp: maxRequests_def)
qed

theorem checkRateLimit_window_witness:
  "allowed (fst (checks (map (\<lambda>n. 120000 + 1000 * n) [0..<12]) Map.empty) ! 0)
   \<and> (\<exists>b. snd (checks (take 3 (map (\<lambda>n. 120000 + 1000 * n) [0..<12])) Map.empty) 2 = Some b
          \<and> count b = 3)
   \<and> \<not> allowed (fst (checks (map (\<lambda>n. 120000 + 1000 * n) [0..<12]) Map.empty) ! 10)
   \<and> (\<exists>r. reset (fst (checks (map (\<lambda>n. 120000 + 1000 * n) [0..<12]) Map.empty) ! 10) = Some r
          \<and> 130000 \<le> r)"
proof -
  let ?ts = "map (\<lambda>n. 120000 + 1000 * n) [0..<12] :: nat list"
  have h: "\<forall>t \<in> set ?ts. t div 60000 = (2::nat)"
    by auto
  have len: "length ?ts = 12" by simp
  have at10: "?ts ! 10 = 130000" by (simp add: nth_append upt_rec)
  have every: "\<forall>i < 12.
           (i < 10 \<longrightarrow>
              allowed (fst (checks ?ts Map.empty) ! i)
              \<and> (\<exists>b. snd (checks (take (Suc i) ?ts) Map.empty) 2 = Some b \<and> count b = Suc i))
           \<and> (10 \<le> i \<longrightarrow>
              \<not> allowed (fst (checks ?ts Map.empty) ! i)
              \<and> (\<exists>r. reset (fst (checks ?ts Map.empty) ! i) = Some r \<and> ?ts ! i \<le> r))"
    using checkRateLimit_window [of Map.empty 2 ?ts] h len by simp
  have "allowed (fst (checks ?ts Map.empty) ! 0)"
    using every [THEN spec, of 0] by simp
  moreover have "\<exists>b. snd (checks (take 3 ?ts) Map.empty) 2 = Some b \<and> count b = 3"
    using every [THEN spec, of 2] by (simp add: numeral_3_eq_3)
  moreover have "\<not> allowed (fst (checks ?ts Map.empty) ! 10)
      \<and> (\<exists>r. reset (fst (checks ?ts Map.empty) ! 10) = Some r \<and> 130000 \<le> r)"
    using every [THEN spec, of 10] at10 by simp
  ultimately show ?thesis by blast
qed

text \<open>
  Claim C5, as amended. A rejection reports the \<open>resetTime\<close> stored in the bucket, which is
  the instant of the call that created the bucket plus the window length. That instant is
  never before the end of the fixed window that keys the bucket and is less than one window
  length after it; it is the end of the window only for a bucket created at the very start
  of its window.
\<close>

theorem checkRateLimit_reset_is_creation_plus_window:
  assumes "tk k = None" and "\<forall>t \<in> set ts. t div 60000 = k"
  shows "\<forall>i < length ts.
           \<not> allowed (fst (checks ts tk) ! i) \<longrightarrow>
             reset (fst (checks ts tk) ! i) = Some (hd ts + 60000)
             \<and> (ts ! i div 60000 + 1) * 60000 \<le> hd ts + 60000
             \<and> hd ts + 60000 < (ts ! i div 60000 + 2) * 60000"
proof (intro allI impI)
  fix i assume i: "i < length ts" and rej: "\<not> allowed (fst (checks ts tk) ! i)"
  have all: "\<forall>t \<in> set ts. t div windowMs = k" using assms(2) by (simp add: windowMs_def)
  have res: "fst (checks ts tk) ! i =
            (if i < maxRequests then \<lparr>allowed = True, reset = None\<rparr>
             else \<lparr>allowed = False, reset = Some (hd ts + windowMs)\<rparr>)"
    using checks_fresh [of tk k ts] assms(1) all i by simp
  have "hd ts div 60000 = k" "ts ! i div 60000 = k"
    using assms(2) i by (cases ts, auto)
  then have "(ts ! i div 60000 + 1) * 60000 \<le> hd ts + 60000
             \<and> hd ts + 60000 < (ts ! i div 60000 + 2) * 60000"
    using same_window(2,3) [of 60000 "hd ts" k "ts ! i"] by simp
  then show "reset (fst (checks ts tk) ! i) = Some (hd ts + 60000)
             \<and> (ts ! i div 60000 + 1) * 60000 \<le> hd ts + 60000
             \<and> hd ts + 60000 < (ts ! i div 60000 + 2) * 60000"
    using res rej by (auto simp: windowMs_def split: if_splits)
qed

text \<open>
  Claim C5 as stated fails: a bucket created 30 seconds into the window \<open>[0, 60000)\<close>
  reports 90000 on its eleventh call, while the window ends at 60000.
\<close>

lemma checks_replicate_30000:
  "fst (checks (replicate 11 30000) Map.empty) ! 10 = \<lparr>allowed = False, reset = Some 90000\<rparr>"
proof -
  have "\<forall>t \<in> set (replicate 11 (30000::nat)). t div windowMs = 0" by (simp add: windowMs_def)
  then show ?thesis
    using checks_fresh [of Map.empty 0 "replicate 11 30000"]
    by (simp add: maxRequests_def windowMs_def)
qed

theorem checkRateLimit_reset_counterexample:
  "\<not> allowed (fst (checks (replicate 11 30000) Map.empty) ! 10)
   \<and> reset (fst (checks (replicate 11 30000) Map.empty) ! 10) = Some 90000
   \<and> (30000 div windowMs + 1) * windowMs = 60000"
  by (simp add: checks_replicate_30000 windowMs_def)

theorem checkRateLimit_reset_is_creation_plus_window_witness:
  "\<not> allowed (fst (checks (replicate 11 30000) Map.empty) ! 10)
   \<and> reset (fst (checks (replicate 11 30000) Map.empty) ! 10) = Some (30000 + 60000)"
proof -
  have h: "\<forall>t \<in> set (replicate 11 (30000::nat)). t div 60000 = 0" by simp
  have r: "\<not> allowed (fst (checks (replicate 11 30000) Map.empty) ! 10)"
    by (simp add: checks_replicate_30000)
  show ?thesis
    using checkRateLimit_reset_is_creation_plus_window [of Map.empty 0 "replicate 11 30000"] h r
    by simp
qed

section \<open>Properties of the search-query enhancer\<close>

lemma enhanceSearchParams_rules:
  "searchQuery (enhanceSearchParams q)
     = js ''latest Indian credit cards'' @ js '' '' @ spec_first_match spec_rules q
       @ js '' '' @ spec_site_restriction"
  unfolding enhanceSearchParams_def spec_rules_def spec_compare_phrase_def spec_site_restriction_def Let_def
  by (simp add: js_def)

lemma cashback_query:
  "searchQuery (enhanceSearchParams (js ''best cashback card''))
     = js ''latest Indian credit cards highest cashback rewards Indian credit cards latest offers (site:cardinsider.com OR site:bankbazaar.com OR site:cardexpert.in)''"
  unfolding enhanceSearchParams_def Let_def
  by (simp add: text_defs run_defs)

lemma compare_query:
  "searchQuery (enhanceSearchParams (js ''hdfc vs axis''))
     = js ''latest Indian credit cards compare hdfc vs axis detailed features benefits india (site:cardinsider.com OR site:bankbazaar.com OR site:cardexpert.in)''"
  unfolding enhanceSearchParams_def Let_def
  by (simp add: text_defs run_defs)

lemma priority_query:
  "searchQuery (enhanceSearchParams (js ''cashback vs reward''))
     = js ''latest Indian credit cards compare cashback vs reward detailed features benefits india (site:cardinsider.com OR site:bankbazaar.com OR site:cardexpert.in)''"
  unfolding enhanceSearchParams_def Let_def
  by (simp add: text_defs run_defs)

text \<open>
  Claim C7. The query built for \<open>best cashback card\<close> contains the cashback phrase and the
  site-restriction clause, and the query built for \<open>hdfc vs axis\<close> contains
  \<open>compare hdfc vs axis\<close>. For every query text, the additional phrase is the one of the
  first rule that applies in the order comparison, cashback, travel or lounge, premium or
  lifestyle, business, first or new, reward, and it is empty when no rule applies. So a
  query that names a comparison, cashback and rewards at once gets the comparison phrase.
\<close>

theorem enhanceSearchParams_examples_and_priority:
  "includes_js (searchQuery (enhanceSearchParams (js ''best cashback card'')))
     (js ''highest cashback rewards Indian credit cards latest offers'')
   \<and> includes_js (searchQuery (enhanceSearchParams (js ''best cashback card''))) spec_site_restriction
   \<and> includes_js (searchQuery (enhanceSearchParams (js ''hdfc vs axis''))) (js ''compare hdfc vs axis'')
   \<and> includes_js (searchQuery (enhanceSearchParams (js ''cashback vs reward'')))
       (js ''compare cashback vs reward'')
   \<and> searchQuery (enhanceSearchParams q)
       = js ''latest Indian credit cards'' @ js '' '' @ spec_first_match spec_rules q
         @ js '' '' @ spec_site_restriction"
  unfolding cashback_query compare_query priority_query
  by (simp add: enhanceSearchParams_rules) (simp add: js_def spec_site_restriction_def)

section \<open>Properties of the markdown enhancer\<close>

lemma enhance_row:
  "enhanceMarkdown (js ''| Annual Fee | '' @ [8377] @ js ''500 | '' @ [8377] @ js ''1000 |'')
   = js ''**Annual Fee**: '' @ [8377] @ js ''500 - _'' @ [8377] @ js ''1000_''"
  unfolding enhanceMarkdown_def Let_def
  by (simp add: text_defs pattern_defs run_defs)

text \<open>
  Claim C9. \<open>enhanceMarkdown\<close> turns the three-column row \<open>| Annual Fee | R500 | R1000 |\<close>,
  where \<open>R\<close> stands for the rupee sign (the code unit 8377), into the single line
  \<open>**Annual Fee**: R500 - _R1000_\<close>, which contains no pipe character.
\<close>

theorem enhanceMarkdown_table_row:
  "enhanceMarkdown (js ''| Annual Fee | '' @ [8377] @ js ''500 | '' @ [8377] @ js ''1000 |'')
     = js ''**Annual Fee**: '' @ [8377] @ js ''500 - _'' @ [8377] @ js ''1000_''
   \<and> of_char CHR ''|''
       \<notin> set (enhanceMarkdown (js ''| Annual Fee | '' @ [8377] @ js ''500 | '' @ [8377] @ js ''1000 |''))"
  unfolding enhance_row by (simp add: js_def)

lemma enhance_heading_once: "enhanceMarkdown (js ''# Fees'') = js ''#  Fees''"
  unfolding enhanceMarkdown_def Let_def
  by (simp add: text_defs pattern_defs run_defs)

lemma enhance_heading_twice: "enhanceMarkdown (js ''#  Fees'') = js ''#   Fees''"
  unfolding enhanceMarkdown_def Let_def
  by (simp add: text_defs pattern_defs run_defs)

text \<open>
  Claim C8 fails on the code. The text \<open># Fees\<close> contains no pipe character and is a
  well-spaced heading, yet each application of \<open>enhanceMarkdown\<close> puts one more space after
  the \<open>#\<close>: the pattern that is meant to repair headings without a space also matches
  headings that have one. So applying the function twice differs from applying it once.
\<close>

theorem enhanceMarkdown_heading_not_idempotent:
  "of_char CHR ''|'' \<notin> set (js ''# Fees'')
   \<and> enhanceMarkdown (js ''# Fees'') = js ''#  Fees''
   \<and> enhanceMarkdown (enhanceMarkdown (js ''# Fees'')) = js ''#   Fees''
   \<and> enhanceMarkdown (enhanceMarkdown (js ''# Fees'')) \<noteq> enhanceMarkdown (js ''# Fees'')"
  unfolding enhance_heading_once enhance_heading_twice by (simp add: js_def)

section \<open>Properties of the response generator\<close>






lemma invalid_not_rate_limit:
  "\<not> includes_js invalidStructure (js ''Rate limit exceeded'')"
  by (simp add: js_def invalidStructure_def)

lemma invalid_translated:
  "errorMessage invalidStructure = js ''An unexpected error occurred. Please try again.''"
  by (simp add: errorMessage_def js_def invalidStructure_def)

lemma attempt_invalid:
  "\<not> validateMessageStructure messages \<Longrightarrow> attempt e messages w = (Inl invalidStructure, w)"
  by (simp add: attempt_def invalidStructure_def)

lemma generateResponse_invalid_from:
  assumes "\<not> validateMessageStructure messages" and "retryCount \<le> MAX_RETRIES"
  shows "generateResponse e messages retryCount w =
     (Inl (js ''An unexpected error occurred. Please try again.''),
      w\<lparr>sleeps := sleeps w @ map (\<lambda>i. RETRY_DELAY * i) [retryCount + 1 ..< MAX_RETRIES + 1],
        events := events w @ map (\<lambda>i. Slept (RETRY_DELAY * i)) [retryCount + 1 ..< MAX_RETRIES + 1],
        now := now w + sum_list (map (\<lambda>i. RETRY_DELAY * i) [retryCount + 1 ..< MAX_RETRIES + 1])\<rparr>)"
  using assms(2)
proof (induction "MAX_RETRIES - retryCount" arbitrary: retryCount w)
  case 0
  then have r: "retryCount = MAX_RETRIES" by simp
  show ?case
    by (subst generateResponse.simps)
       (simp add: attempt_invalid [OF assms(1)] invalid_not_rate_limit invalid_translated r)
next
  case (Suc n)
  then have lt: "retryCount < MAX_RETRIES" and n: "n = MAX_RETRIES - (retryCount + 1)"
    and le: "retryCount + 1 \<le> MAX_RETRIES" by simp_all
  have step: "generateResponse e messages retryCount w =
      generateResponse e messages (retryCount + 1) (sleep (RETRY_DELAY * (retryCount + 1)) w)"
    by (subst generateResponse.simps)
       (simp add: attempt_invalid [OF assms(1)] invalid_not_rate_limit lt)
  have up: "[retryCount + 1 ..< MAX_RETRIES + 1] = (retryCount + 1) # [retryCount + 1 + 1 ..< MAX_RETRIES + 1]"
    using lt by (simp add: upt_rec)
  show ?case
    unfolding step Suc.hyps(1) [OF n le] up
    by (simp add: sleep_def)
qed

text \<open>
  Claim C1 fails on the code. The validation error is thrown inside the \<open>try\<close> block, and
  the \<open>catch\<close> block exempts only messages that contain \<open>Rate limit exceeded\<close> from the
  retries. For every conversation that fails validation, \<open>generateResponse\<close> therefore
  waits 1000, 2000 and 3000 milliseconds, validating again after each wait, and then fails
  with the message for unexpected errors instead of the validation message. No request is
  sent and the rate limiter is not touched.
\<close>

theorem generateResponse_retries_invalid_structure:
  assumes "\<not> validateMessageStructure messages"
  shows "generateResponse e messages 0 w =
     (Inl (js ''An unexpected error occurred. Please try again.''),
      w\<lparr>sleeps := sleeps w @ [1000, 2000, 3000],
        events := events w @ [Slept 1000, Slept 2000, Slept 3000],
        now := now w + 6000\<rparr>)"
proof -
  have "[0 + 1 ..< MAX_RETRIES + 1] = [1, 2, 3]"
    by (simp add: MAX_RETRIES_def upt_rec)
  then show ?thesis
    using generateResponse_invalid_from [OF assms, of 0 e w]
    by (simp add: RETRY_DELAY_def)
qed

lemma assistant_only_invalid:
  "\<not> validateMessageStructure [\<lparr>role = js ''assistant'', content = js ''hi''\<rparr>]"
  by (simp add: validateMessageStructure_def js_def alternation_loop.simps)

theorem generateResponse_retries_invalid_structure_witness:
  "generateResponse (mock 200 (js ''ok'')) [\<lparr>role = js ''assistant'', content = js ''hi''\<rparr>] 0 fresh =
     (Inl (js ''An unexpected error occurred. Please try again.''),
      \<lparr>now = 6000, tokens = Map.empty, calls = [], sleeps = [1000, 2000, 3000],
        events = [Slept 1000, Slept 2000, Slept 3000]\<rparr>)"
  using generateResponse_retries_invalid_structure [OF assistant_only_invalid, of "mock 200 (js ''ok'')" fresh]
  by (simp add: fresh_def)






lemma attempt_calls:
  "calls (snd (attempt e messages w)) = calls w
   \<or> calls (snd (attempt e messages w)) = calls w @ [requestBody e messages]"
  by (simp add: attempt_def split_def Let_def split: reply.splits sum.splits)

lemma generateResponse_calls:
  "\<exists>n. n \<le> Suc (MAX_RETRIES - retryCount)
      \<and> calls (snd (generateResponse e messages retryCount w))
          = calls w @ replicate n (requestBody e messages)"
proof (induction e messages retryCount w rule: generateResponse.induct)
  case (1 e messages retryCount w)
  obtain r w1 where a: "attempt e messages w = (r, w1)" by (cases "attempt e messages w")
  have c1: "calls w1 = calls w \<or> calls w1 = calls w @ [requestBody e messages]"
    using attempt_calls [of e messages w] a by simp
  then obtain k where k: "k \<le> 1" "calls w1 = calls w @ replicate k (requestBody e messages)"
  proof
    assume "calls w1 = calls w"
    then have "calls w1 = calls w @ replicate 0 (requestBody e messages)" by simp
    then show ?thesis using that [of 0] by simp
  next
    assume "calls w1 = calls w @ [requestBody e messages]"
    then have "calls w1 = calls w @ replicate 1 (requestBody e messages)" by simp
    then show ?thesis using that [of 1] by simp
  qed
  show ?case
  proof (cases r)
    case (Inr result)
    then have "generateResponse e messages retryCount w = (Inr result, w1)"
      using a by (subst generateResponse.simps) simp
    then show ?thesis using k by (intro exI [of _ k]) simp
  next
    case (Inl message)
    show ?thesis
    proof (cases "includes_js message (js ''Rate limit exceeded'')")
      case True
      then have "generateResponse e messages retryCount w = (Inl message, w1)"
        using a Inl by (subst generateResponse.simps) simp
      then show ?thesis using k by (intro exI [of _ k]) simp
    next
      case False
      show ?thesis
      proof (cases "retryCount < MAX_RETRIES")
        case last: False
        then have "generateResponse e messages retryCount w = (Inl (errorMessage message), w1)"
          using a Inl False by (subst generateResponse.simps) simp
        then show ?thesis using k by (intro exI [of _ k]) simp
      next
        case True
        let ?w2 = "sleep (RETRY_DELAY * (retryCount + 1)) w1"
        have step: "generateResponse e messages retryCount w
            = generateResponse e messages (retryCount + 1) ?w2"
          using a Inl False True by (subst generateResponse.simps) simp
        obtain n where n: "n \<le> Suc (MAX_RETRIES - (retryCount + 1))"
          "calls (snd (generateResponse e messages (retryCount + 1) ?w2))
             = calls ?w2 @ replicate n (requestBody e messages)"
          using "1.IH" [OF a [symmetric] Inl False True] by blast
        have "calls ?w2 = calls w1" by (simp add: sleep_def)
        then have "calls (snd (generateResponse e messages retryCount w))
            = calls w @ replicate (k + n) (requestBody e messages)"
          using step n(2) k(2) by (simp add: replicate_add)
        moreover have "k + n \<le> Suc (MAX_RETRIES - retryCount)"
          using k(1) n(1) True by simp
        ultimately show ?thesis by blast
      qed
    qed
  qed
qed
















lemma find_first_user:
  assumes "\<forall>m \<in> set before. \<not> P (f m)" and "P (f u)"
  shows "find P (map f (before @ u # after)) = Some (f u)"
  using assms by (induction before) auto

text \<open>
  Claim C6 fails on the code. \<open>find\<close> returns the first element that satisfies the
  predicate, so the search query is computed from the first user turn of the conversation,
  with the qualifier in front and lower-cased, whatever turns follow it.
\<close>

theorem search_query_uses_first_user_turn:
  assumes "messages = before @ u # after"
    and "role u = js ''user''"
    and "\<forall>m \<in> set before. role m \<noteq> js ''user''"
  shows "req_search_query (requestBody e messages)
           = searchQuery (enhanceSearchParams
               (toLowerCase e (js ''For Indian credit cards only: '' @ content u)))"
proof -
  let ?f = "\<lambda>msg. if role msg = js ''user''
                 then msg\<lparr>content := js ''For Indian credit cards only: '' @ content msg\<rparr>
                 else msg"
  have "find (\<lambda>m. role m = js ''user'') (map ?f (before @ u # after)) = Some (?f u)"
    by (rule find_first_user) (use assms(2,3) in auto)
  then show ?thesis
    using assms(1,2) by (simp add: requestBody_def Let_def js_def)
qed

lemma cashback_from_first_turn:
  "searchQuery (enhanceSearchParams
      (ascii_lower (js ''For Indian credit cards only: '' @ js ''Best cashback card'')))
   = js ''latest Indian credit cards highest cashback rewards Indian credit cards latest offers (site:cardinsider.com OR site:bankbazaar.com OR site:cardexpert.in)''"
  unfolding enhanceSearchParams_def Let_def
  by (simp add: text_defs run_defs ascii_lower_def)

lemma compare_from_last_turn:
  "searchQuery (enhanceSearchParams
      (ascii_lower (js ''For Indian credit cards only: '' @ js ''hdfc vs axis'')))
   = js ''latest Indian credit cards compare for indian credit cards only: hdfc vs axis detailed features benefits india (site:cardinsider.com OR site:bankbazaar.com OR site:cardexpert.in)''"
  unfolding enhanceSearchParams_def Let_def
  by (simp add: text_defs run_defs ascii_lower_def)

lemma answered_call_sends_one_request:
  "calls (snd (generateResponse (mock 200 (js ''ok''))
      [\<lparr>role = js ''user'', content = js ''Best cashback card''\<rparr>,
       \<lparr>role = js ''assistant'', content = js ''ok''\<rparr>,
       \<lparr>role = js ''user'', content = js ''hdfc vs axis''\<rparr>] 0 fresh))
   = [requestBody (mock 200 (js ''ok''))
        [\<lparr>role = js ''user'', content = js ''Best cashback card''\<rparr>,
         \<lparr>role = js ''assistant'', content = js ''ok''\<rparr>,
         \<lparr>role = js ''user'', content = js ''hdfc vs axis''\<rparr>]]"
proof -
  let ?m = "[\<lparr>role = js ''user'', content = js ''Best cashback card''\<rparr>,
       \<lparr>role = js ''assistant'', content = js ''ok''\<rparr>,
       \<lparr>role = js ''user'', content = js ''hdfc vs axis''\<rparr>]"
  have v: "validateMessageStructure ?m"
    by (simp add: validateMessageStructure_def js_def alternation_loop.simps)
  show ?thesis
    using v
    by (simp add: generateResponse.simps attempt_def mock_def checkRateLimit_def
        Let_def increment_def maxRequests_def fresh_def cleanup_def)
qed

theorem search_query_uses_first_user_turn_witness:
  "req_search_query (requestBody (mock 200 (js ''ok''))
      [\<lparr>role = js ''user'', content = js ''Best cashback card''\<rparr>,
       \<lparr>role = js ''assistant'', content = js ''ok''\<rparr>,
       \<lparr>role = js ''user'', content = js ''hdfc vs axis''\<rparr>])
     = js ''latest Indian credit cards highest cashback rewards Indian credit cards latest offers (site:cardinsider.com OR site:bankbazaar.com OR site:cardexpert.in)''
   \<and> req_search_query (requestBody (mock 200 (js ''ok''))
      [\<lparr>role = js ''user'', content = js ''Best cashback card''\<rparr>,
       \<lparr>role = js ''assistant'', content = js ''ok''\<rparr>,
       \<lparr>role = js ''user'', content = js ''hdfc vs axis''\<rparr>])
     \<noteq> searchQuery (enhanceSearchParams
           (toLowerCase (mock 200 (js ''ok''))
              (js ''For Indian credit cards only: '' @ js ''hdfc vs axis'')))
   \<and> map req_search_query (calls (snd (generateResponse (mock 200 (js ''ok''))
      [\<lparr>role = js ''user'', content = js ''Best cashback card''\<rparr>,
       \<lparr>role = js ''assistant'', content = js ''ok''\<rparr>,
       \<lparr>role = js ''user'', content = js ''hdfc vs axis''\<rparr>] 0 fresh)))
     = [js ''latest Indian credit cards highest cashback rewards Indian credit cards latest offers (site:cardinsider.com OR site:bankbazaar.com OR site:cardexpert.in)'']"
proof -
  let ?u = "\<lparr>role = js ''user'', content = js ''Best cashback card''\<rparr>"
  let ?rest = "[\<lparr>role = js ''assistant'', content = js ''ok''\<rparr>,
                \<lparr>role = js ''user'', content = js ''hdfc vs axis''\<rparr>]"
  have "req_search_query (requestBody (mock 200 (js ''ok'')) ([] @ ?u # ?rest))
      = searchQuery (enhanceSearchParams
               (toLowerCase (mock 200 (js ''ok''))
                  (js ''For Indian credit cards only: '' @ content ?u)))"
    by (rule search_query_uses_first_user_turn [of _ "[]" ?u ?rest]) simp_all
  then have q: "req_search_query (requestBody (mock 200 (js ''ok'')) (?u # ?rest))
      = js ''latest Indian credit cards highest cashback rewards Indian credit cards latest offers (site:cardinsider.com OR site:bankbazaar.com OR site:cardexpert.in)''"
    by (simp add: mock_def cashback_from_first_turn)
  have l: "toLowerCase (mock 200 (js ''ok'')) = ascii_lower" by (simp add: mock_def)
  have sent: "map req_search_query (calls (snd (generateResponse (mock 200 (js ''ok''))
      (?u # ?rest) 0 fresh)))
     = [js ''latest Indian credit cards highest cashback rewards Indian credit cards latest offers (site:cardinsider.com OR site:bankbazaar.com OR site:cardexpert.in)'']"
    using answered_call_sends_one_request q by simp
  have other: "req_search_query (requestBody (mock 200 (js ''ok'')) (?u # ?rest))
     \<noteq> searchQuery (enhanceSearchParams
           (toLowerCase (mock 200 (js ''ok''))
              (js ''For Indian credit cards only: '' @ js ''hdfc vs axis'')))"
    unfolding q l compare_from_last_turn by (simp add: js_def)
  show ?thesis
    using q sent other by blast
qed

lemma filter_user_qualified:
  "filter (\<lambda>m. role m = js ''user'')
     (map (\<lambda>msg. if role msg = js ''user''
                 then msg\<lparr>content := js ''For Indian credit cards only: '' @ content msg\<rparr>
                 else msg) ms)
   = map (\<lambda>m. m\<lparr>content := js ''For Indian credit cards only: '' @ content m\<rparr>)
       (filter (\<lambda>m. role m = js ''user'') ms)"
  by (induction ms) auto

lemma system_is_not_user: "js ''system'' \<noteq> js ''user''"
  by (simp add: js_def)

text \<open>
  Claim C10. Whatever the platform, the state and the retry count, all the requests that
  one call of \<open>generateResponse\<close> sends, retries included, are the same request, built from
  the messages the caller passed. Its message array is the rewritten conversation, with
  the system prompt in front unless the conversation starts with a system turn, and its
  user turns are the user turns of the input, each with the qualifier put once in front of
  its content.
\<close>

theorem generateResponse_sends_original_turns_prefixed_once:
  "(\<exists>n. n \<le> Suc (MAX_RETRIES - retryCount)
        \<and> calls (snd (generateResponse e messages retryCount w))
            = calls w @ replicate n (requestBody e messages))
   \<and> req_messages (requestBody e messages)
       = (case messages of
             [] \<Rightarrow> [\<lparr>role = js ''system'', content = CREDIT_CARD_EXPERT_PROMPT\<rparr>]
           | first # others \<Rightarrow>
               if role first = js ''system''
               then map (\<lambda>msg. if role msg = js ''user''
                          then msg\<lparr>content := js ''For Indian credit cards only: '' @ content msg\<rparr>
                          else msg) messages
               else \<lparr>role = js ''system'', content = CREDIT_CARD_EXPERT_PROMPT\<rparr>
                    # map (\<lambda>msg. if role msg = js ''user''
                          then msg\<lparr>content := js ''For Indian credit cards only: '' @ content msg\<rparr>
                          else msg) messages)
   \<and> filter (\<lambda>m. role m = js ''user'') (req_messages (requestBody e messages))
       = map (\<lambda>m. m\<lparr>content := js ''For Indian credit cards only: '' @ content m\<rparr>)
           (filter (\<lambda>m. role m = js ''user'') messages)"
proof (intro conjI)
  show "\<exists>n. n \<le> Suc (MAX_RETRIES - retryCount)
        \<and> calls (snd (generateResponse e messages retryCount w))
            = calls w @ replicate n (requestBody e messages)"
    by (rule generateResponse_calls)
next
  show "req_messages (requestBody e messages)
       = (case messages of
             [] \<Rightarrow> [\<lparr>role = js ''system'', content = CREDIT_CARD_EXPERT_PROMPT\<rparr>]
           | first # others \<Rightarrow>
               if role first = js ''system''
               then map (\<lambda>msg. if role msg = js ''user''
                          then msg\<lparr>content := js ''For Indian credit cards only: '' @ content msg\<rparr>
                          else msg) messages
               else \<lparr>role = js ''system'', content = CREDIT_CARD_EXPERT_PROMPT\<rparr>
                    # map (\<lambda>msg. if role msg = js ''user''
                          then msg\<lparr>content := js ''For Indian credit cards only: '' @ content msg\<rparr>
                          else msg) messages)"
    using system_is_not_user
    by (cases messages) (auto simp: requestBody_def Let_def)
next
  have "filter (\<lambda>m. role m = js ''user'') (req_messages (requestBody e messages))
      = filter (\<lambda>m. role m = js ''user'')
          (map (\<lambda>msg. if role msg = js ''user''
                 then msg\<lparr>content := js ''For Indian credit cards only: '' @ content msg\<rparr>
                 else msg) messages)"
    using system_is_not_user
    by (cases messages) (auto simp: requestBody_def Let_def)
  then show "filter (\<lambda>m. role m = js ''user'') (req_messages (requestBody e messages))
       = map (\<lambda>m. m\<lparr>content := js ''For Indian credit cards only: '' @ content m\<rparr>)
           (filter (\<lambda>m. role m = js ''user'') messages)"
    by (simp only: filter_user_qualified)
qed

end
